theory Spec2Isabelle
  imports Main "HOL-Library.Word"
begin

section \<open>The MedicalDiagnosis contract\<close>

subsection \<open>Solidity value types\<close>

type_synonym address = "160 word"
type_synonym uint32 = "32 word"
type_synonym uint256 = "256 word"
type_synonym bytes32 = "256 word"
type_synonym bytes = "8 word list"

text \<open>
  \<open>euint32\<close> and \<open>externalEuint32\<close> are user-defined value types over \<open>bytes32\<close>:
  opaque ciphertext handles.
\<close>

type_synonym euint32 = "256 word"
type_synonym externalEuint32 = "256 word"

subsection \<open>The FHE library, as a parameter\<close>

text \<open>
  The contract imports the library \<open>FHE\<close> from \<open>@fhevm/solidity\<close>; its code is no part
  of the repository. The four functions whose results the contract reads are taken as a
  parameter. \<open>fromExternal\<close> verifies the input proof for the calling account and reverts
  when the proof is rejected (\<open>None\<close>); \<open>checkSignatures\<close> reverts when the signatures
  do not cover the handles and the cleartexts (\<open>False\<close>).
\<close>

record fhe_lib =
  fromExternal :: "address \<Rightarrow> externalEuint32 \<Rightarrow> bytes \<Rightarrow> euint32 option"
  isInitialized :: "euint32 \<Rightarrow> bool"
  toBytes32 :: "euint32 \<Rightarrow> bytes32"
  checkSignatures :: "bytes32 list \<Rightarrow> bytes \<Rightarrow> bytes \<Rightarrow> bool"

subsection \<open>The existence test, as a parameter\<close>

text \<open>
  Every function tests whether a case exists with
  \<^verbatim>\<open>bytes(cases[caseId].patientAddress).length\<close>: the idiom for an unset string,
  applied to a field of type \<open>address\<close>. Solidity has no conversion from \<open>address\<close>
  to \<open>bytes\<close>, so the source gives the expression no value. The conversion is taken
  as a parameter, \<open>address_bytes\<close>, beside the library: what is proved of the
  contract for every \<open>env\<close> holds however the expression is read.
\<close>

record env = fhe_lib +
  address_bytes :: "address \<Rightarrow> bytes"

text \<open>
  The conversion Solidity does have for an address is the fixed-size \<open>bytes20\<close>: its
  20 bytes, most significant first. With it the length is 20 for every address.
\<close>

definition bytes20 :: "address \<Rightarrow> bytes" where
  "bytes20 a = map (\<lambda>k. ucast (drop_bit (8 * k) a)) (rev [0..<20])"

subsection \<open>Storage\<close>

record PatientCase =
  patientAddress :: address
  encryptedSymptoms :: euint32
  diagnosisResult :: uint32
  isDiagnosed :: bool
  timestamp :: uint256

datatype event =
    CaseCreated string address
  | DiagnosisComplete string uint32

text \<open>
  \<open>cases\<close> is a Solidity mapping: total, every slot that was never written holds the
  zero value of the struct. \<open>caseIds\<close> is the dynamic array. \<open>events\<close> is the log of
  emitted events, oldest first. \<open>allowedThis\<close> and \<open>publiclyDecryptable\<close> are the
  handles that the contract may use and that anyone may have decrypted: the part of the
  library's access-control state that the contract writes.
\<close>

record MedicalDiagnosis =
  cases :: "string \<Rightarrow> PatientCase"
  caseIds :: "string list"
  events :: "event list"
  allowedThis :: "euint32 set"
  publiclyDecryptable :: "euint32 set"

definition zero_case :: PatientCase where
  "zero_case = \<lparr>patientAddress = 0, encryptedSymptoms = 0, diagnosisResult = 0,
                 isDiagnosed = False, timestamp = 0\<rparr>"

definition init :: MedicalDiagnosis where
  "init = \<lparr>cases = (\<lambda>_. zero_case), caseIds = [], events = [],
           allowedThis = {}, publiclyDecryptable = {}\<rparr>"

text \<open>
  Modelled from the spec: \<open>FHE.allowThis\<close> and \<open>FHE.makePubliclyDecryptable\<close> write
  the access-control state of the library, whose code is missing. Section 6 of the
  specification describes the second as a one-way grant that marks a ciphertext as
  eligible for public decryption, so each call adds its handle to a set.
\<close>

definition allowThis :: "euint32 \<Rightarrow> MedicalDiagnosis \<Rightarrow> MedicalDiagnosis" where
  "allowThis h s = s\<lparr>allowedThis := insert h (allowedThis s)\<rparr>"

definition makePubliclyDecryptable :: "euint32 \<Rightarrow> MedicalDiagnosis \<Rightarrow> MedicalDiagnosis" where
  "makePubliclyDecryptable h s = s\<lparr>publiclyDecryptable := insert h (publiclyDecryptable s)\<rparr>"

subsection \<open>Reverts\<close>

text \<open>
  A \<open>require\<close> that fails reverts with its message. The library calls revert with
  errors of their own, and \<open>abi.decode\<close> reverts on a payload it cannot decode.
\<close>

datatype error =
    Revert string
  | InputProofRejected
  | SignaturesRejected
  | AbiDecodeFailed
  | DecryptionRejected

abbreviation DuplicateIdentifier :: error where
  "DuplicateIdentifier \<equiv> Revert ''Case already exists''"

abbreviation NotFound :: error where
  "NotFound \<equiv> Revert ''Case does not exist''"

abbreviation AlreadyResolved :: error where
  "AlreadyResolved \<equiv> Revert ''Case already diagnosed''"

abbreviation InvalidEncryptedInput :: error where
  "InvalidEncryptedInput \<equiv> Revert ''Invalid encrypted input''"

abbreviation ProofRejected :: error where
  "ProofRejected \<equiv> SignaturesRejected"

subsection \<open>ABI coding of a uint32\<close>

text \<open>
  \<open>abi.decode(data, (uint32))\<close> reads the first 32 bytes as a big-endian number and
  reverts when there are fewer than 32 bytes or when the number does not fit 32 bits.
  \<open>abi.encode\<close> of a \<open>uint32\<close> is the value as 32 bytes, big-endian.
\<close>

definition be_uint :: "bytes \<Rightarrow> int" where
  "be_uint bs = foldl (\<lambda>acc b. 256 * acc + uint b) 0 bs"

definition abi_decode_uint32 :: "bytes \<Rightarrow> uint32 option" where
  "abi_decode_uint32 data =
     (if length data < 32 then None
      else if be_uint (take 32 data) < 2 ^ 32 then Some (word_of_int (be_uint (take 32 data)))
      else None)"

definition abi_encode_uint32 :: "uint32 \<Rightarrow> bytes" where
  "abi_encode_uint32 v =
     replicate 28 0 @
     [word_of_int (uint v div 16777216 mod 256), word_of_int (uint v div 65536 mod 256),
      word_of_int (uint v div 256 mod 256), word_of_int (uint v mod 256)]"

subsection \<open>The functions of the contract\<close>

text \<open>What a call sees of its transaction: \<open>msg.sender\<close> and \<open>block.timestamp\<close>.\<close>

record msg =
  msg_sender :: address
  block_timestamp :: uint256

definition createCase ::
  "env \<Rightarrow> msg \<Rightarrow> string \<Rightarrow> externalEuint32 \<Rightarrow> bytes \<Rightarrow> MedicalDiagnosis
     \<Rightarrow> error + MedicalDiagnosis" where
  "createCase env m caseId extSymptoms inputProof s =
     (if length (address_bytes env (patientAddress (cases s caseId))) \<noteq> 0 then Inl DuplicateIdentifier
      else case fromExternal env (msg_sender m) extSymptoms inputProof of
        None \<Rightarrow> Inl InputProofRejected
      | Some checked \<Rightarrow>
          if \<not> isInitialized env checked then Inl InvalidEncryptedInput
          else (case fromExternal env (msg_sender m) extSymptoms inputProof of
            None \<Rightarrow> Inl InputProofRejected
          | Some h \<Rightarrow>
              let s1 = s\<lparr>cases := (cases s)(caseId :=
                          \<lparr>patientAddress = msg_sender m, encryptedSymptoms = h,
                           diagnosisResult = 0, isDiagnosed = False,
                           timestamp = block_timestamp m\<rparr>)\<rparr>;
                  s2 = allowThis (encryptedSymptoms (cases s1 caseId)) s1;
                  s3 = makePubliclyDecryptable (encryptedSymptoms (cases s2 caseId)) s2;
                  s4 = s3\<lparr>caseIds := caseIds s3 @ [caseId]\<rparr>
              in Inr (s4\<lparr>events := events s4 @ [CaseCreated caseId (msg_sender m)]\<rparr>)))"

definition diagnoseCase ::
  "env \<Rightarrow> string \<Rightarrow> bytes \<Rightarrow> bytes \<Rightarrow> MedicalDiagnosis \<Rightarrow> error + MedicalDiagnosis" where
  "diagnoseCase env caseId abiEncodedResult diagnosisProof s =
     (if \<not> length (address_bytes env (patientAddress (cases s caseId))) > 0 then Inl NotFound
      else if isDiagnosed (cases s caseId) then Inl AlreadyResolved
      else
        let cts = [toBytes32 env (encryptedSymptoms (cases s caseId))] in
        if \<not> checkSignatures env cts abiEncodedResult diagnosisProof then Inl ProofRejected
        else (case abi_decode_uint32 abiEncodedResult of
          None \<Rightarrow> Inl AbiDecodeFailed
        | Some result \<Rightarrow>
            let s1 = s\<lparr>cases := (cases s)(caseId :=
                        (cases s caseId)\<lparr>diagnosisResult := result\<rparr>)\<rparr>;
                s2 = s1\<lparr>cases := (cases s1)(caseId :=
                        (cases s1 caseId)\<lparr>isDiagnosed := True\<rparr>)\<rparr>
            in Inr (s2\<lparr>events := events s2 @ [DiagnosisComplete caseId result]\<rparr>)))"

definition getEncryptedSymptoms :: "env \<Rightarrow> MedicalDiagnosis \<Rightarrow> string \<Rightarrow> error + euint32" where
  "getEncryptedSymptoms env s caseId =
     (if \<not> length (address_bytes env (patientAddress (cases s caseId))) > 0 then Inl NotFound
      else Inr (encryptedSymptoms (cases s caseId)))"

definition getCaseDetails ::
  "env \<Rightarrow> MedicalDiagnosis \<Rightarrow> string
     \<Rightarrow> error + (address \<times> uint32 \<times> bool \<times> uint256)" where
  "getCaseDetails env s caseId =
     (if \<not> length (address_bytes env (patientAddress (cases s caseId))) > 0 then Inl NotFound
      else let c = cases s caseId
           in Inr (patientAddress c, diagnosisResult c, isDiagnosed c, timestamp c))"

definition getAllCaseIds :: "MedicalDiagnosis \<Rightarrow> string list" where
  "getAllCaseIds s = caseIds s"

definition verifyContractActive :: bool where
  "verifyContractActive = True"

subsection \<open>Transactions\<close>

text \<open>
  A call either returns, and its writes are kept, or reverts, and the state is the one
  before the call.
\<close>

datatype fn =
    CreateCase string externalEuint32 bytes
  | DiagnoseCase string bytes bytes
  | GetEncryptedSymptoms string
  | GetCaseDetails string
  | GetAllCaseIds
  | VerifyContractActive

datatype retval =
    Unit
  | Handle euint32
  | Details address uint32 bool uint256
  | Ids "string list"
  | Flag bool

fun exec :: "env \<Rightarrow> msg \<Rightarrow> fn \<Rightarrow> MedicalDiagnosis
    \<Rightarrow> (error + retval) \<times> MedicalDiagnosis" where
  "exec env m (CreateCase caseId x p) s =
     (case createCase env m caseId x p s of
        Inl e \<Rightarrow> (Inl e, s) | Inr s' \<Rightarrow> (Inr Unit, s'))"
| "exec env m (DiagnoseCase caseId r p) s =
     (case diagnoseCase env caseId r p s of
        Inl e \<Rightarrow> (Inl e, s) | Inr s' \<Rightarrow> (Inr Unit, s'))"
| "exec env m (GetEncryptedSymptoms caseId) s =
     (case getEncryptedSymptoms env s caseId of
        Inl e \<Rightarrow> (Inl e, s) | Inr h \<Rightarrow> (Inr (Handle h), s))"
| "exec env m (GetCaseDetails caseId) s =
     (case getCaseDetails env s caseId of
        Inl e \<Rightarrow> (Inl e, s) | Inr (a, r, d, t) \<Rightarrow> (Inr (Details a r d t), s))"
| "exec env m GetAllCaseIds s = (Inr (Ids (getAllCaseIds s)), s)"
| "exec env m VerifyContractActive s = (Inr (Flag verifyContractActive), s)"

fun run :: "env \<Rightarrow> (msg \<times> fn) list \<Rightarrow> MedicalDiagnosis \<Rightarrow> MedicalDiagnosis" where
  "run env [] s = s"
| "run env ((m, f) # cs) s = run env cs (snd (exec env m f s))"

text \<open>The calls of a run with what each returned, in order.\<close>

fun trace :: "env \<Rightarrow> (msg \<times> fn) list \<Rightarrow> MedicalDiagnosis
    \<Rightarrow> (fn \<times> (error + retval)) list" where
  "trace env [] s = []"
| "trace env ((m, f) # cs) s =
     (f, fst (exec env m f s)) # trace env cs (snd (exec env m f s))"

text \<open>The identifier a call created, when it is a \<open>createCase\<close> that returned.\<close>

fun created_id :: "fn \<times> (error + retval) \<Rightarrow> string option" where
  "created_id (CreateCase caseId x p, Inr r) = Some caseId"
| "created_id other = None"

definition created_ids :: "(fn \<times> (error + retval)) list \<Rightarrow> string list" where
  "created_ids tr = List.map_filter created_id tr"

text \<open>The identifier and value a call resolved, when it is a \<open>diagnoseCase\<close> that returned.\<close>

fun resolution :: "fn \<times> (error + retval) \<Rightarrow> (string \<times> uint32) option" where
  "resolution (DiagnoseCase caseId r p, Inr u) =
     (case abi_decode_uint32 r of None \<Rightarrow> None | Some v \<Rightarrow> Some (caseId, v))"
| "resolution other = None"

definition resolutions :: "(fn \<times> (error + retval)) list \<Rightarrow> (string \<times> uint32) list" where
  "resolutions tr = List.map_filter resolution tr"

subsection \<open>Consistency of the storage\<close>

text \<open>
  What holds of the storage after every run, however the existence test is read: a
  diagnosed case passes the existence test, and a case not diagnosed has the zero result.
\<close>

definition consistent :: "env \<Rightarrow> MedicalDiagnosis \<Rightarrow> bool" where
  "consistent env s \<longleftrightarrow>
     (\<forall>i. isDiagnosed (cases s i) \<longrightarrow>
        0 < length (address_bytes env (patientAddress (cases s i)))) \<and>
     (\<forall>i. \<not> isDiagnosed (cases s i) \<longrightarrow> diagnosisResult (cases s i) = 0)"

section \<open>The decryption round trip of the web client\<close>

text \<open>
  \<open>decryptData\<close> of \<open>App.tsx\<close> reads the details of a record, returns the stored value
  when the record is verified already, and otherwise asks for the decryption of the
  record's handle and commits the cleartext through the contract.
\<close>

text \<open>
  Modelled from the spec: the client reaches the contract through \<open>getContractReadOnly\<close>
  and \<open>getContractWithSigner\<close>, whose module with the contract interface is missing, and
  calls it by the names \<open>getBusinessData\<close>, \<open>getEncryptedValue\<close> and
  \<open>verifyDecryption\<close>. Section 6 of the specification gives the boundary the client
  consumes: \<open>getDetails\<close> returning owner, result, resolved and creation time,
  \<open>getEncryptedField\<close> returning the handle, and \<open>resolve\<close>; of the contract these
  are \<open>getCaseDetails\<close>, \<open>getEncryptedSymptoms\<close> and \<open>diagnoseCase\<close>.
\<close>

definition getBusinessData ::
  "env \<Rightarrow> MedicalDiagnosis \<Rightarrow> string
     \<Rightarrow> error + (address \<times> uint32 \<times> bool \<times> uint256)" where
  "getBusinessData env s businessId = getCaseDetails env s businessId"

definition getEncryptedValue :: "env \<Rightarrow> MedicalDiagnosis \<Rightarrow> string \<Rightarrow> error + euint32" where
  "getEncryptedValue env s businessId = getEncryptedSymptoms env s businessId"

definition contract_verifyDecryption ::
  "env \<Rightarrow> string \<Rightarrow> bytes \<Rightarrow> bytes \<Rightarrow> MedicalDiagnosis \<Rightarrow> error + MedicalDiagnosis" where
  "contract_verifyDecryption env businessId abiEncodedClearValues decryptionProof s =
     diagnoseCase env businessId abiEncodedClearValues decryptionProof s"

datatype status = StatusPending | StatusSuccess | StatusError

text \<open>What the decryption service answers: the cleartexts by handle, their ABI coding and the proof.\<close>

record decryption =
  clearValues :: "bytes32 \<Rightarrow> int"
  abiEncodedClearValues :: bytes
  decryptionProof :: bytes

type_synonym relayer = "bytes32 list \<Rightarrow> address \<Rightarrow> decryption option"

text \<open>
  Modelled from the spec: the hook \<open>verifyDecryption\<close> of \<open>useDecrypt\<close> comes from a
  module that is missing. Section 4.2 of the specification: it submits the handles and
  the context to the decryption service, receives the cleartexts by handle with a proof,
  invokes the callback so that the caller commits the values through the proof-checked
  path, and returns the cleartexts; it fails with \<open>DecryptionRejected\<close> when the
  service gives no valid answer, and with the callback's error when the commit fails.
\<close>

definition verifyDecryption ::
  "relayer \<Rightarrow> bytes32 list \<Rightarrow> address
     \<Rightarrow> (bytes \<Rightarrow> bytes \<Rightarrow> MedicalDiagnosis \<Rightarrow> error + MedicalDiagnosis)
     \<Rightarrow> MedicalDiagnosis \<Rightarrow> error + (decryption \<times> MedicalDiagnosis)" where
  "verifyDecryption service handles requestContext resultCallback s =
     (case service handles requestContext of
        None \<Rightarrow> Inl DecryptionRejected
      | Some d \<Rightarrow>
          (case resultCallback (abiEncodedClearValues d) (decryptionProof d) s of
             Inl e \<Rightarrow> Inl e
           | Inr s' \<Rightarrow> Inr (d, s')))"

text \<open>The message of the exception the client catches: the reason of a revert, or the error's name.\<close>

fun message :: "error \<Rightarrow> string" where
  "message (Revert reason) = reason"
| "message InputProofRejected = ''InputProofRejected''"
| "message SignaturesRejected = ''SignaturesRejected''"
| "message AbiDecodeFailed = ''AbiDecodeFailed''"
| "message DecryptionRejected = ''DecryptionRejected''"

text \<open>JavaScript's \<open>String.prototype.includes\<close>.\<close>

fun str_includes :: "string \<Rightarrow> string \<Rightarrow> bool" where
  "str_includes [] t = (t = [])"
| "str_includes (c # cs) t = (take (length t) (c # cs) = t \<or> str_includes cs t)"

text \<open>The state of the page that \<open>decryptData\<close> reads.\<close>

record client =
  isConnected :: bool
  address :: "address option"
  contractAddress :: address
  contractRead :: bool
  contractWrite :: bool

text \<open>
  The \<open>catch\<close> block: an error that says the data is verified already counts as a
  success; either way the function returns \<open>null\<close>.
\<close>

definition caught :: "error \<Rightarrow> int option \<times> status option" where
  "caught e =
     (if str_includes (message e) ''Data already verified'' then (None, Some StatusSuccess)
      else (None, Some StatusError))"

text \<open>
  \<open>decryptData\<close> returns a number or \<open>null\<close> and leaves a transaction status on the
  page (\<open>None\<close> when it sets none). \<open>Number(x) || 0\<close> is \<open>x\<close> for a number.
  The calls it makes are taken back to back, with no other transaction between them.
\<close>

definition decryptData ::
  "env \<Rightarrow> relayer \<Rightarrow> client \<Rightarrow> string \<Rightarrow> MedicalDiagnosis
     \<Rightarrow> (int option \<times> status option) \<times> MedicalDiagnosis" where
  "decryptData env service ui businessId s =
     (if \<not> isConnected ui \<or> address ui = None then ((None, Some StatusError), s)
      else if \<not> contractRead ui then ((None, None), s)
      else case getBusinessData env s businessId of
        Inl e \<Rightarrow> (caught e, s)
      | Inr (creator, decryptedValue, isVerified, createdAt) \<Rightarrow>
          if isVerified then
            let storedValue = (if uint decryptedValue = 0 then 0 else uint decryptedValue)
            in ((Some storedValue, Some StatusSuccess), s)
          else if \<not> contractWrite ui then ((None, None), s)
          else (case getEncryptedValue env s businessId of
            Inl e \<Rightarrow> (caught e, s)
          | Inr encryptedValueHandle \<Rightarrow>
              (case verifyDecryption service [encryptedValueHandle] (contractAddress ui)
                      (\<lambda>abiEncodedClearValues decryptionProof.
                         contract_verifyDecryption env businessId abiEncodedClearValues
                           decryptionProof) s of
                 Inl e \<Rightarrow> (caught e, s)
               | Inr (result, s') \<Rightarrow>
                   ((Some (clearValues result encryptedValueHandle), Some StatusSuccess), s'))))"

text \<open>
  \<open>decryptData\<close> is asynchronous: it awaits the read of the record before it goes on,
  and other transactions can be mined meanwhile. \<open>decryptData_interleaved\<close> is the same
  function with the transactions \<open>others\<close> mined after its read of the record and
  before the rest; with no such transaction it is \<open>decryptData\<close>.
\<close>

definition decryptData_interleaved ::
  "env \<Rightarrow> relayer \<Rightarrow> client \<Rightarrow> (msg \<times> fn) list \<Rightarrow> string \<Rightarrow> MedicalDiagnosis
     \<Rightarrow> (int option \<times> status option) \<times> MedicalDiagnosis" where
  "decryptData_interleaved env service ui others businessId s =
     (if \<not> isConnected ui \<or> address ui = None then ((None, Some StatusError), s)
      else if \<not> contractRead ui then ((None, None), s)
      else case getBusinessData env s businessId of
        Inl e \<Rightarrow> (caught e, s)
      | Inr (creator, decryptedValue, isVerified, createdAt) \<Rightarrow>
          if isVerified then
            let storedValue = (if uint decryptedValue = 0 then 0 else uint decryptedValue)
            in ((Some storedValue, Some StatusSuccess), s)
          else
            let s1 = run env others s in
            if \<not> contractWrite ui then ((None, None), s1)
            else (case getEncryptedValue env s1 businessId of
              Inl e \<Rightarrow> (caught e, s1)
            | Inr encryptedValueHandle \<Rightarrow>
                (case verifyDecryption service [encryptedValueHandle] (contractAddress ui)
                        (\<lambda>abiEncodedClearValues decryptionProof.
                           contract_verifyDecryption env businessId abiEncodedClearValues
                             decryptionProof) s1 of
                   Inl e \<Rightarrow> (caught e, s1)
                 | Inr (result, s') \<Rightarrow>
                     ((Some (clearValues result encryptedValueHandle), Some StatusSuccess),
                      s'))))"

section \<open>A stand-in for what the source leaves open\<close>

text \<open>
  To evaluate the contract on concrete calls: an input proof is accepted when it is not
  empty, a decryption proof is accepted when it is the low bytes of the handles followed
  by the cleartexts, and the bytes of an address are its 20 bytes.
\<close>

definition test_env :: env where
  "test_env = \<lparr>fromExternal = (\<lambda>a x p. if p = [] then None else Some x),
               isInitialized = (\<lambda>h. h \<noteq> 0),
               toBytes32 = (\<lambda>h. h),
               checkSignatures = (\<lambda>cts clear prf. prf = map ucast cts @ clear),
               address_bytes = bytes20\<rparr>"

definition alice :: msg where
  "alice = \<lparr>msg_sender = 10, block_timestamp = 1000\<rparr>"

definition bob :: msg where
  "bob = \<lparr>msg_sender = 11, block_timestamp = 2000\<rparr>"



definition diagnose_a :: "(msg \<times> fn) list" where
  "diagnose_a = [(bob, DiagnoseCase ''a'' (abi_encode_uint32 42) (0 # abi_encode_uint32 42))]"

text \<open>A decryption service that answers 42 for the handle 0, and a page with a connected wallet.\<close>

definition test_service :: relayer where
  "test_service handles requestContext =
     (if handles = [0] then
        Some \<lparr>clearValues = (\<lambda>h. 42), abiEncodedClearValues = abi_encode_uint32 42,
              decryptionProof = 0 # abi_encode_uint32 42\<rparr>
      else None)"

definition page :: client where
  "page = \<lparr>isConnected = True, address = Some 11, contractAddress = 99,
            contractRead = True, contractWrite = True\<rparr>"

section \<open>Properties of the contract\<close>

subsection \<open>Runs and single calls\<close>

lemma run_append: "run env (cs @ ds) s = run env ds (run env cs s)"
  by (induction cs arbitrary: s) auto

lemma trace_append: "trace env (cs @ ds) s = trace env cs s @ trace env ds (run env cs s)"
  by (induction cs arbitrary: s) auto

lemma created_ids_append: "created_ids (xs @ ys) = created_ids xs @ created_ids ys"
  by (simp add: created_ids_def map_filter_def)

lemma resolutions_append: "resolutions (xs @ ys) = resolutions xs @ resolutions ys"
  by (simp add: resolutions_def map_filter_def)

lemma createCase_Inr:
  assumes "createCase env m i x p s = Inr s'"
  obtains h where "length (address_bytes env (patientAddress (cases s i))) = 0"
    and "fromExternal env (msg_sender m) x p = Some h" and "isInitialized env h"
    and "s' = s\<lparr>cases := (cases s)(i := \<lparr>patientAddress = msg_sender m, encryptedSymptoms = h,
                           diagnosisResult = 0, isDiagnosed = False,
                           timestamp = block_timestamp m\<rparr>),
                 allowedThis := insert h (allowedThis s),
                 publiclyDecryptable := insert h (publiclyDecryptable s),
                 caseIds := caseIds s @ [i],
                 events := events s @ [CaseCreated i (msg_sender m)]\<rparr>"
  using assms
  by (auto simp: createCase_def allowThis_def makePubliclyDecryptable_def Let_def
      split: if_splits option.splits)

lemma diagnoseCase_Inr:
  assumes "diagnoseCase env i r p s = Inr s'"
  obtains v where "0 < length (address_bytes env (patientAddress (cases s i)))" and "\<not> isDiagnosed (cases s i)"
    and "checkSignatures env [toBytes32 env (encryptedSymptoms (cases s i))] r p"
    and "abi_decode_uint32 r = Some v"
    and "s' = s\<lparr>cases := (cases s)(i := (cases s i)\<lparr>diagnosisResult := v, isDiagnosed := True\<rparr>),
                 events := events s @ [DiagnosisComplete i v]\<rparr>"
  using assms
  by (auto simp: diagnoseCase_def Let_def split: if_splits option.splits)

lemma exec_cases [case_names same create diagnose]:
  obtains "snd (exec env m f s) = s" and "created_id (f, fst (exec env m f s)) = None"
      and "resolution (f, fst (exec env m f s)) = None"
  | i x p h where "f = CreateCase i x p" and "fst (exec env m f s) = Inr Unit"
      and "length (address_bytes env (patientAddress (cases s i))) = 0"
      and "fromExternal env (msg_sender m) x p = Some h" and "isInitialized env h"
      and "snd (exec env m f s) =
           s\<lparr>cases := (cases s)(i := \<lparr>patientAddress = msg_sender m, encryptedSymptoms = h,
                           diagnosisResult = 0, isDiagnosed = False,
                           timestamp = block_timestamp m\<rparr>),
             allowedThis := insert h (allowedThis s),
             publiclyDecryptable := insert h (publiclyDecryptable s),
             caseIds := caseIds s @ [i],
             events := events s @ [CaseCreated i (msg_sender m)]\<rparr>"
  | i r p v where "f = DiagnoseCase i r p" and "fst (exec env m f s) = Inr Unit"
      and "0 < length (address_bytes env (patientAddress (cases s i)))" and "\<not> isDiagnosed (cases s i)"
      and "checkSignatures env [toBytes32 env (encryptedSymptoms (cases s i))] r p"
      and "abi_decode_uint32 r = Some v"
      and "snd (exec env m f s) =
           s\<lparr>cases := (cases s)(i := (cases s i)\<lparr>diagnosisResult := v, isDiagnosed := True\<rparr>),
             events := events s @ [DiagnosisComplete i v]\<rparr>"
proof (cases f)
  case (CreateCase i x p)
  show ?thesis
  proof (cases "createCase env m i x p s")
    case (Inl e)
    with CreateCase that(1) show ?thesis by simp
  next
    case (Inr s')
    from createCase_Inr [OF Inr] obtain h where
      "length (address_bytes env (patientAddress (cases s i))) = 0" "fromExternal env (msg_sender m) x p = Some h"
      "isInitialized env h"
      "s' = s\<lparr>cases := (cases s)(i := \<lparr>patientAddress = msg_sender m, encryptedSymptoms = h,
                           diagnosisResult = 0, isDiagnosed = False,
                           timestamp = block_timestamp m\<rparr>),
             allowedThis := insert h (allowedThis s),
             publiclyDecryptable := insert h (publiclyDecryptable s),
             caseIds := caseIds s @ [i],
             events := events s @ [CaseCreated i (msg_sender m)]\<rparr>"
      by blast
    with CreateCase Inr that(2) show ?thesis by simp
  qed
next
  case (DiagnoseCase i r p)
  show ?thesis
  proof (cases "diagnoseCase env i r p s")
    case (Inl e)
    with DiagnoseCase that(1) show ?thesis by simp
  next
    case (Inr s')
    from diagnoseCase_Inr [OF Inr] obtain v where
      "0 < length (address_bytes env (patientAddress (cases s i)))" "\<not> isDiagnosed (cases s i)"
      "checkSignatures env [toBytes32 env (encryptedSymptoms (cases s i))] r p"
      "abi_decode_uint32 r = Some v"
      "s' = s\<lparr>cases := (cases s)(i := (cases s i)\<lparr>diagnosisResult := v, isDiagnosed := True\<rparr>),
             events := events s @ [DiagnosisComplete i v]\<rparr>"
      by blast
    with DiagnoseCase Inr that(3) show ?thesis by simp
  qed
next
  case (GetEncryptedSymptoms i)
  with that(1) show ?thesis by (simp split: sum.splits)
next
  case (GetCaseDetails i)
  with that(1) show ?thesis by (simp split: sum.splits prod.splits)
next
  case GetAllCaseIds
  with that(1) show ?thesis by simp
next
  case VerifyContractActive
  with that(1) show ?thesis by simp
qed

lemma consistent_init: "consistent env init"
  by (simp add: consistent_def init_def zero_case_def)

lemma consistent_exec: "consistent env s \<Longrightarrow> consistent env (snd (exec env m f s))"
proof (cases rule: exec_cases [of env m f s])
  case same
  assume "consistent env s"
  with same show ?thesis by simp
next
  case (create i x p h)
  assume "consistent env s"
  with create(6) show ?thesis by (auto simp: consistent_def)
next
  case (diagnose i r p v)
  assume "consistent env s"
  with diagnose(3,7) show ?thesis by (auto simp: consistent_def zero_case_def)
qed

lemma consistent_run: "consistent env s \<Longrightarrow> consistent env (run env cs s)"
  by (induction cs arbitrary: s) (auto simp: consistent_exec)

lemma exec_caseIds:
  "caseIds (snd (exec env m f s)) = caseIds s @ created_ids [(f, fst (exec env m f s))]"
  by (cases rule: exec_cases [of env m f s]) (simp_all add: created_ids_def map_filter_def)

lemma run_caseIds: "caseIds (run env cs s) = caseIds s @ created_ids (trace env cs s)"
proof (induction cs arbitrary: s)
  case Nil
  show ?case by (simp add: created_ids_def map_filter_def)
next
  case (Cons c cs)
  obtain m f where c: "c = (m, f)" by (cases c)
  have "created_ids ((f, fst (exec env m f s)) # trace env cs (snd (exec env m f s))) =
        created_ids [(f, fst (exec env m f s))] @ created_ids (trace env cs (snd (exec env m f s)))"
    by (simp add: created_ids_def map_filter_def)
  with Cons.IH [of "snd (exec env m f s)"] c show ?case
    by (simp add: exec_caseIds)
qed

lemma resolved_frozen_exec:
  "isDiagnosed (cases s i) \<Longrightarrow> 0 < length (address_bytes env (patientAddress (cases s i))) \<Longrightarrow>
   cases (snd (exec env m f s)) i = cases s i"
  by (cases rule: exec_cases [of env m f s]) auto

lemma resolved_frozen_run:
  "isDiagnosed (cases s i) \<Longrightarrow> 0 < length (address_bytes env (patientAddress (cases s i))) \<Longrightarrow>
   cases (run env cs s) i = cases s i"
  by (induction cs arbitrary: s) (auto simp: resolved_frozen_exec)

lemma publiclyDecryptable_exec:
  "publiclyDecryptable s \<subseteq> publiclyDecryptable (snd (exec env m f s))"
  by (cases rule: exec_cases [of env m f s]) auto

lemma publiclyDecryptable_run:
  "publiclyDecryptable s \<subseteq> publiclyDecryptable (run env cs s)"
proof (induction cs arbitrary: s)
  case Nil
  show ?case by simp
next
  case (Cons c cs)
  obtain m f where c: "c = (m, f)" by (cases c)
  have "publiclyDecryptable s \<subseteq> publiclyDecryptable (snd (exec env m f s))"
    by (rule publiclyDecryptable_exec)
  also have "\<dots> \<subseteq> publiclyDecryptable (run env cs (snd (exec env m f s)))"
    by (rule Cons.IH)
  finally show ?case using c by simp
qed

lemma resolutions_snoc:
  "resolutions (tr @ [e]) = resolutions tr @ (case resolution e of None \<Rightarrow> [] | Some r \<Rightarrow> [r])"
  by (simp add: resolutions_def map_filter_def split: option.splits)

lemma resolutions_run:
  "filter (\<lambda>e. fst e = i) (resolutions (trace env cs init)) =
     (if isDiagnosed (cases (run env cs init) i)
      then [(i, diagnosisResult (cases (run env cs init) i))] else [])"
proof (induction cs arbitrary: i rule: rev_induct)
  case Nil
  show ?case by (simp add: resolutions_def map_filter_def init_def zero_case_def)
next
  case (snoc c cs)
  obtain m f where c: "c = (m, f)" by (cases c)
  define s where "s = run env cs init"
  define tr where "tr = trace env cs init"
  have cons: "consistent env s"
    unfolding s_def by (rule consistent_run [OF consistent_init])
  have IH: "filter (\<lambda>e. fst e = j) (resolutions tr) =
     (if isDiagnosed (cases s j) then [(j, diagnosisResult (cases s j))] else [])" for j
    unfolding s_def tr_def by (rule snoc.IH)
  have run: "run env (cs @ [c]) init = snd (exec env m f s)"
    by (simp add: run_append c s_def)
  have tr: "trace env (cs @ [c]) init = tr @ [(f, fst (exec env m f s))]"
    by (simp add: trace_append c s_def tr_def)
  show ?case
  proof (cases rule: exec_cases [of env m f s])
    case same
    have "resolutions (tr @ [(f, fst (exec env m f s))]) = resolutions tr"
      by (simp add: resolutions_snoc same(3))
    then show ?thesis
      by (simp only: run tr same(1) IH)
  next
    case (create j x p h)
    have "\<not> isDiagnosed (cases s j)"
      using cons create(3) by (auto simp: consistent_def)
    moreover have "resolutions (tr @ [(f, fst (exec env m f s))]) = resolutions tr"
      by (simp only: resolutions_snoc create(2)) (simp add: create(1))
    moreover have "cases (snd (exec env m f s)) i = 
      (if i = j then \<lparr>patientAddress = msg_sender m, encryptedSymptoms = h,
                           diagnosisResult = 0, isDiagnosed = False,
                           timestamp = block_timestamp m\<rparr> else cases s i)"
      by (simp add: create(6))
    ultimately show ?thesis
      by (simp add: run tr IH)
  next
    case (diagnose j r p v)
    have "resolutions (tr @ [(f, fst (exec env m f s))]) = resolutions tr @ [(j, v)]"
      by (simp only: resolutions_snoc diagnose(2)) (simp add: diagnose(1,6))
    moreover have "cases (snd (exec env m f s)) i = 
      (if i = j then (cases s j)\<lparr>diagnosisResult := v, isDiagnosed := True\<rparr> else cases s i)"
      by (simp add: diagnose(7))
    ultimately show ?thesis
      using diagnose(4) by (simp add: run tr IH)
  qed
qed

lemma be_uint_4: "be_uint (replicate 28 0 @ [a, b, c, d]) =
   uint a * 16777216 + uint b * 65536 + uint c * 256 + uint d"
proof -
  have z: "foldl (\<lambda>acc b. 256 * acc + uint (b :: 8 word)) 0 (replicate n 0) = 0" for n
    by (induction n) simp_all
  show ?thesis by (simp add: be_uint_def z)
qed

lemma base256_digits:
  fixes n :: int
  assumes "0 \<le> n" and "n < 4294967296"
  shows "(n div 16777216 mod 256) * 16777216 + (n div 65536 mod 256) * 65536 +
         (n div 256 mod 256) * 256 + n mod 256 = n"
proof -
  define a where "a = n div 256"
  define b where "b = a div 256"
  define c where "c = b div 256"
  have b: "n div 65536 = b"
    using zdiv_zmult2_eq [of 256 n 256] by (simp add: a_def b_def)
  have c: "n div 16777216 = c"
    using zdiv_zmult2_eq [of 256 a 256] zdiv_zmult2_eq [of 65536 n 256] b
    by (simp add: a_def b_def c_def)
  have "c < 256" using assms c by simp
  moreover have "0 \<le> c" using assms c by simp
  ultimately have c256: "c mod 256 = c" by simp
  have "n mod 256 = n - 256 * a" "a mod 256 = a - 256 * b" "b mod 256 = b - 256 * c"
    by (simp_all add: a_def b_def c_def minus_mult_div_eq_mod)
  then show ?thesis
    unfolding b c a_def [symmetric] c256 by simp
qed

lemma abi_roundtrip: "abi_decode_uint32 (abi_encode_uint32 v) = Some v"
proof -
  let ?n = "uint v"
  have lt: "?n < 4294967296" using uint_lt2p [of v] by simp
  have ge: "0 \<le> ?n" by simp
  have b: "uint (word_of_int (k mod 256) :: 8 word) = k mod 256" for k :: int
    by (simp add: uint_word_of_int take_bit_eq_mod)
  have len: "length (abi_encode_uint32 v) = 32" by (simp add: abi_encode_uint32_def)
  have val: "be_uint (abi_encode_uint32 v) = ?n"
    unfolding abi_encode_uint32_def be_uint_4 b using base256_digits [OF ge lt] .
  show ?thesis
    using lt by (simp add: abi_decode_uint32_def len val)
qed

subsection \<open>The existence test read as the 20 bytes of the address\<close>

lemma length_bytes20: "length (bytes20 a) = 20"
  by (simp add: bytes20_def)

lemma createCase_bytes20:
  "address_bytes env = bytes20 \<Longrightarrow> createCase env m i x p s = Inl DuplicateIdentifier"
  by (simp add: createCase_def length_bytes20)

lemma getCaseDetails_bytes20:
  "address_bytes env = bytes20 \<Longrightarrow>
   getCaseDetails env s i =
     Inr (patientAddress (cases s i), diagnosisResult (cases s i), isDiagnosed (cases s i),
          timestamp (cases s i))"
  by (simp add: getCaseDetails_def length_bytes20 Let_def)

lemma getEncryptedSymptoms_bytes20:
  "address_bytes env = bytes20 \<Longrightarrow>
   getEncryptedSymptoms env s i = Inr (encryptedSymptoms (cases s i))"
  by (simp add: getEncryptedSymptoms_def length_bytes20)



subsection \<open>The runs, evaluated\<close>

lemma test_env_bytes20: "address_bytes test_env = bytes20"
  by (simp add: test_env_def)




lemma diagnoseCase_a:
  "diagnoseCase test_env ''a'' (abi_encode_uint32 42) (0 # abi_encode_uint32 42) init =
     Inr \<lparr>cases = (\<lambda>_. zero_case)(''a'' := \<lparr>patientAddress = 0, encryptedSymptoms = 0,
                diagnosisResult = 42, isDiagnosed = True, timestamp = 0\<rparr>),
          caseIds = [], events = [DiagnosisComplete ''a'' 42],
          allowedThis = {}, publiclyDecryptable = {}\<rparr>"
  by (simp add: diagnoseCase_def length_bytes20 test_env_def init_def zero_case_def
      abi_roundtrip)

lemma run_diagnose_a:
  "run test_env diagnose_a init =
     \<lparr>cases = (\<lambda>_. zero_case)(''a'' := \<lparr>patientAddress = 0, encryptedSymptoms = 0,
                diagnosisResult = 42, isDiagnosed = True, timestamp = 0\<rparr>),
      caseIds = [], events = [DiagnosisComplete ''a'' 42],
      allowedThis = {}, publiclyDecryptable = {}\<rparr>"
  by (simp add: diagnose_a_def diagnoseCase_a)

lemma diagnoseCase_a_run:
  "diagnoseCase test_env ''a'' (abi_encode_uint32 42) (0 # abi_encode_uint32 42) init =
     Inr (run test_env diagnose_a init)"
  by (simp only: run_diagnose_a diagnoseCase_a)

lemma trace_diagnose_a:
  "trace test_env diagnose_a init =
     [(DiagnoseCase ''a'' (abi_encode_uint32 42) (0 # abi_encode_uint32 42), Inr Unit)]"
  by (simp add: diagnose_a_def diagnoseCase_a)

lemma details_init_a: "getCaseDetails test_env init ''a'' = Inr (0, 0, False, 0)"
  by (simp add: getCaseDetails_bytes20 [OF test_env_bytes20] init_def zero_case_def)

lemma details_diagnosed_a:
  "getCaseDetails test_env (run test_env diagnose_a init) ''a'' = Inr (0, 42, True, 0)"
  by (simp add: getCaseDetails_bytes20 [OF test_env_bytes20] run_diagnose_a)

lemma handle_init_a: "getEncryptedSymptoms test_env init ''a'' = Inr 0"
  by (simp add: getEncryptedSymptoms_bytes20 [OF test_env_bytes20] init_def zero_case_def)

subsection \<open>The grant of public decryption\<close>

lemma createCase_grants:
  "createCase env m i x p s = Inr s' \<Longrightarrow> encryptedSymptoms (cases s' i) \<in> publiclyDecryptable s'"
  by (auto elim!: createCase_Inr)

subsection \<open>The client's round trip\<close>

lemma getCaseDetails_frozen:
  assumes "getCaseDetails env s i = Inr (a, v, True, t)"
  shows "getCaseDetails env (run env ds s) i = Inr (a, v, True, t)"
proof -
  from assms have "0 < length (address_bytes env (patientAddress (cases s i)))"
    and "isDiagnosed (cases s i)"
    by (auto simp: getCaseDetails_def Let_def split: if_splits)
  then have "cases (run env ds s) i = cases s i"
    by (intro resolved_frozen_run)
  with assms show ?thesis
    by (simp add: getCaseDetails_def Let_def split: if_splits)
qed

lemma decryptData_state:
  "snd (decryptData env service ui k s) = s \<or>
   (\<exists>r p. diagnoseCase env k r p s = Inr (snd (decryptData env service ui k s)))"
  by (auto simp: decryptData_def verifyDecryption_def getBusinessData_def
      getEncryptedValue_def contract_verifyDecryption_def Let_def
      split: sum.splits prod.splits option.splits if_splits)

lemma resolved_after_decryptData:
  assumes "isDiagnosed (cases s j)"
    and "0 < length (address_bytes env (patientAddress (cases s j)))"
  shows "cases (snd (decryptData env service ui k s)) j = cases s j"
proof -
  from decryptData_state [of env service ui k s]
  consider "snd (decryptData env service ui k s) = s"
    | r p where "diagnoseCase env k r p s = Inr (snd (decryptData env service ui k s))"
    by blast
  then show ?thesis
  proof cases
    case 1
    then show ?thesis by simp
  next
    case 2
    then have "snd (exec env m (DiagnoseCase k r p) s) = snd (decryptData env service ui k s)"
      for m by simp
    with resolved_frozen_exec [OF assms, where f = "DiagnoseCase k r p"]
    show ?thesis by simp
  qed
qed

lemma decryptData_interleaved_Nil:
  "decryptData_interleaved env service ui [] i s = decryptData env service ui i s"
  by (simp add: decryptData_interleaved_def decryptData_def Let_def
      split: sum.splits prod.splits)

lemma caught_no_value: "fst (caught e) = None"
  by (simp add: caught_def)

lemma commit_on_resolved:
  assumes "getCaseDetails env s1 i = Inr (a, v, True, t)"
  shows "diagnoseCase env i r p s1 = Inl AlreadyResolved"
  using assms by (auto simp: getCaseDetails_def diagnoseCase_def Let_def split: if_splits)

lemma interleaved_resolved_meanwhile:
  assumes ui: "isConnected ui \<and> address ui \<noteq> None \<and> contractRead ui"
    and open_case: "getCaseDetails env s i = Inr (a, r0, False, t)"
    and resolved: "getCaseDetails env (run env others s) i = Inr (a', v, True, t')"
  shows "fst (fst (decryptData_interleaved env service ui others i s)) = None"
    and "snd (decryptData_interleaved env service ui others i s) = run env others s"
  using ui open_case commit_on_resolved [OF resolved]
  by (auto simp: decryptData_interleaved_def verifyDecryption_def getBusinessData_def
      getEncryptedValue_def contract_verifyDecryption_def Let_def caught_no_value
      split: sum.splits prod.splits option.splits)

section \<open>The claims\<close>

text \<open>
  C1. A case is diagnosed at most once. In every state the contract can reach, a
  \<open>diagnoseCase\<close> on a case that is diagnosed already reverts with
  \<open>Case already diagnosed\<close> and leaves the storage as it was, and no later call of any
  kind changes that case. A \<open>diagnoseCase\<close> that returned makes every further one on
  the same case revert with the same message. Result and flag are written together by
  the one call that returned: a case that is not diagnosed has the zero result and no
  \<open>diagnoseCase\<close> of the run returned for it, and a diagnosed case holds the value
  decoded by the single \<open>diagnoseCase\<close> that returned for it. This holds however the
  existence test is read.
\<close>

theorem resolve_at_most_once:
  assumes s: "s = run env cs init"
  shows "(isDiagnosed (cases s i) \<longrightarrow>
            exec env m (DiagnoseCase i r p) s = (Inl AlreadyResolved, s) \<and>
            (\<forall>ds. cases (run env ds s) i = cases s i)) \<and>
         (\<forall>s' r' p'. diagnoseCase env i r p s = Inr s' \<longrightarrow>
            diagnoseCase env i r' p' s' = Inl AlreadyResolved) \<and>
         (\<not> isDiagnosed (cases s i) \<longrightarrow> diagnosisResult (cases s i) = 0) \<and>
         filter (\<lambda>e. fst e = i) (resolutions (trace env cs init)) =
           (if isDiagnosed (cases s i) then [(i, diagnosisResult (cases s i))] else [])"
proof -
  have cons: "consistent env s"
    unfolding s by (rule consistent_run [OF consistent_init])
  have again: "exec env m (DiagnoseCase i r p) s = (Inl AlreadyResolved, s)"
    and frozen: "cases (run env ds s) i = cases s i"
    if d: "isDiagnosed (cases s i)" for ds
  proof -
    from cons d have ex: "0 < length (address_bytes env (patientAddress (cases s i)))"
      by (simp add: consistent_def)
    with d show "exec env m (DiagnoseCase i r p) s = (Inl AlreadyResolved, s)"
      by (simp add: diagnoseCase_def)
    from d ex show "cases (run env ds s) i = cases s i"
      by (rule resolved_frozen_run)
  qed
  have second: "diagnoseCase env i r' p' s' = Inl AlreadyResolved"
    if "diagnoseCase env i r p s = Inr s'" for s' r' p'
    using that by (rule diagnoseCase_Inr) (simp add: diagnoseCase_def)
  have unset: "diagnosisResult (cases s i) = 0" if "\<not> isDiagnosed (cases s i)"
    using cons that by (simp add: consistent_def)
  have once: "filter (\<lambda>e. fst e = i) (resolutions (trace env cs init)) =
           (if isDiagnosed (cases s i) then [(i, diagnosisResult (cases s i))] else [])"
    unfolding s by (rule resolutions_run)
  from again frozen second unset once show ?thesis by blast
qed

theorem resolve_at_most_once_witness:
  "isDiagnosed (cases (run test_env diagnose_a init) ''a'') \<and>
   exec test_env alice (DiagnoseCase ''a'' (abi_encode_uint32 43) (0 # abi_encode_uint32 43))
        (run test_env diagnose_a init) = (Inl AlreadyResolved, run test_env diagnose_a init) \<and>
   diagnosisResult (cases (run test_env diagnose_a init) ''a'') = 42 \<and>
   filter (\<lambda>e. fst e = ''a'') (resolutions (trace test_env diagnose_a init)) = [(''a'', 42)]"
proof -
  have d: "isDiagnosed (cases (run test_env diagnose_a init) ''a'')"
    by (simp add: run_diagnose_a)
  have v: "diagnosisResult (cases (run test_env diagnose_a init) ''a'') = 42"
    by (simp add: run_diagnose_a)
  show ?thesis
    using d v resolve_at_most_once [of "run test_env diagnose_a init" test_env diagnose_a
        "''a''" alice "abi_encode_uint32 43" "0 # abi_encode_uint32 43"]
    by simp
qed

text \<open>
  C2. Two \<open>createCase\<close> calls with one identifier should give one success and one
  \<open>Case already exists\<close>. The existence test of \<open>createCase\<close> takes the bytes of an
  address; with the 20 bytes an address has, the test fails for every slot, written or
  not. Then, in every state, the first \<open>createCase\<close> reverts with
  \<open>Case already exists\<close>, and so does the second: no success.
\<close>

theorem create_never_returns:
  assumes "address_bytes env = bytes20"
  shows "exec env m1 (CreateCase i x1 p1) s = (Inl DuplicateIdentifier, s) \<and>
         exec env m2 (CreateCase i x2 p2) (snd (exec env m1 (CreateCase i x1 p1) s)) =
           (Inl DuplicateIdentifier, s)"
  by (simp add: createCase_bytes20 [OF assms])

theorem create_never_returns_witness:
  "exec test_env alice (CreateCase ''a'' 7 [1]) init = (Inl DuplicateIdentifier, init) \<and>
   exec test_env bob (CreateCase ''a'' 9 [2])
     (snd (exec test_env alice (CreateCase ''a'' 7 [1]) init)) = (Inl DuplicateIdentifier, init)"
  by (rule create_never_returns [OF test_env_bytes20])



text \<open>
  C4. A rejected proof changes nothing. When a case exists and is not diagnosed, and
  \<open>checkSignatures\<close> rejects the proof for the case's handle and the submitted
  coding, \<open>diagnoseCase\<close> reverts with the library's error, the storage is the one
  before the call, and \<open>getCaseDetails\<close> reports the case as before, not diagnosed.
  This holds however the existence test is read.
\<close>

theorem rejected_proof_changes_nothing:
  assumes open_case: "getCaseDetails env s i = Inr (a, r0, False, t)"
    and rejected: "\<not> checkSignatures env [toBytes32 env (encryptedSymptoms (cases s i))] r prf"
  shows "diagnoseCase env i r prf s = Inl ProofRejected \<and>
         exec env m (DiagnoseCase i r prf) s = (Inl ProofRejected, s) \<and>
         getCaseDetails env (snd (exec env m (DiagnoseCase i r prf) s)) i = Inr (a, r0, False, t)"
proof -
  from open_case have "0 < length (address_bytes env (patientAddress (cases s i)))"
    and "\<not> isDiagnosed (cases s i)"
    by (auto simp: getCaseDetails_def Let_def split: if_splits)
  with rejected have "diagnoseCase env i r prf s = Inl ProofRejected"
    by (simp add: diagnoseCase_def)
  with open_case show ?thesis by simp
qed

theorem rejected_proof_changes_nothing_witness:
  "checkSignatures test_env [0] (abi_encode_uint32 43) (0 # abi_encode_uint32 43) \<and>
   exec test_env bob (DiagnoseCase ''a'' (abi_encode_uint32 42) (0 # abi_encode_uint32 43))
     init = (Inl ProofRejected, init) \<and>
   getCaseDetails test_env (snd (exec test_env bob
       (DiagnoseCase ''a'' (abi_encode_uint32 42) (0 # abi_encode_uint32 43)) init)) ''a'' =
     Inr (0, 0, False, 0)"
proof -
  have "abi_encode_uint32 43 \<noteq> abi_encode_uint32 42"
    by (simp add: abi_encode_uint32_def)
  then have rejected: "\<not> checkSignatures test_env
      [toBytes32 test_env (encryptedSymptoms (cases init ''a''))]
      (abi_encode_uint32 42) (0 # abi_encode_uint32 43)"
    by (simp add: test_env_def init_def zero_case_def)
  have valid43: "checkSignatures test_env [0] (abi_encode_uint32 43) (0 # abi_encode_uint32 43)"
    by (simp add: test_env_def)
  show ?thesis
    using valid43 details_init_a
      rejected_proof_changes_nothing [OF details_init_a rejected, of bob]
    by simp
qed

text \<open>
  C5. The catalog is append-only. After any run from the empty contract,
  \<open>getAllCaseIds\<close> returns the identifiers of the \<open>createCase\<close> calls that returned,
  in the order of the calls, so its length is their number; from any state, a run only
  appends to the catalog; and \<open>getAllCaseIds\<close> itself writes nothing.
\<close>

theorem catalog_append_only:
  "getAllCaseIds (run env cs init) = created_ids (trace env cs init) \<and>
   length (getAllCaseIds (run env cs init)) = length (created_ids (trace env cs init)) \<and>
   getAllCaseIds (run env ds s) = getAllCaseIds s @ created_ids (trace env ds s) \<and>
   exec env m GetAllCaseIds s = (Inr (Ids (caseIds s)), s)"
proof -
  have "caseIds (run env cs init) = created_ids (trace env cs init)"
    using run_caseIds [of env cs init] by (simp add: init_def)
  moreover have "caseIds (run env ds s) = caseIds s @ created_ids (trace env ds s)"
    by (rule run_caseIds)
  ultimately show ?thesis
    by (simp add: getAllCaseIds_def)
qed

text \<open>
  C6. \<open>getCaseDetails\<close> and \<open>getEncryptedSymptoms\<close> should revert with
  \<open>Case does not exist\<close> for an identifier that was never created. Their existence
  test takes the bytes of an address; with the 20 bytes an address has, the test passes
  for every slot: on the empty contract both return the zero values of the slot, and in
  no state does either revert with \<open>Case does not exist\<close>.
\<close>

theorem lookup_of_empty_slot_returns:
  assumes "address_bytes env = bytes20"
  shows "getCaseDetails env init i = Inr (0, 0, False, 0) \<and>
         getEncryptedSymptoms env init i = Inr 0 \<and>
         getCaseDetails env s i \<noteq> Inl NotFound \<and>
         getEncryptedSymptoms env s i \<noteq> Inl NotFound"
  by (simp add: getCaseDetails_bytes20 [OF assms] getEncryptedSymptoms_bytes20 [OF assms]
      init_def zero_case_def)

theorem lookup_of_empty_slot_returns_witness:
  "getCaseDetails test_env init ''a'' = Inr (0, 0, False, 0) \<and>
   getEncryptedSymptoms test_env init ''a'' = Inr 0"
  using lookup_of_empty_slot_returns [OF test_env_bytes20, of "''a''" init]
  by simp



text \<open>
  C8. A verified decryption resolves the record. For a case that exists and is not
  diagnosed, when the decryption service answers for the case's handle with a payload
  that \<open>checkSignatures\<close> accepts and that decodes to a value, \<open>decryptData\<close>
  returns the cleartext with a success status and leaves the contract in the state that
  a \<open>diagnoseCase\<close> with the same payload gives: the decoded value stored and the
  flag set. From there the case stays diagnosed with that value, under any run of
  contract calls and under any further \<open>decryptData\<close>. This holds however the
  existence test is read.
\<close>

theorem decryption_commits_and_resolves:
  assumes ui: "isConnected ui \<and> address ui \<noteq> None \<and> contractRead ui \<and> contractWrite ui"
    and open_case: "getCaseDetails env s i = Inr (a, r0, False, t)"
    and handle: "getEncryptedSymptoms env s i = Inr h"
    and answer: "service [h] (contractAddress ui) = Some d"
    and proof_ok: "checkSignatures env [toBytes32 env h] (abiEncodedClearValues d) (decryptionProof d)"
    and decoded: "abi_decode_uint32 (abiEncodedClearValues d) = Some v"
  shows "\<exists>s'. decryptData env service ui i s = ((Some (clearValues d h), Some StatusSuccess), s') \<and>
           diagnoseCase env i (abiEncodedClearValues d) (decryptionProof d) s = Inr s' \<and>
           getCaseDetails env s' i = Inr (a, v, True, t) \<and>
           (\<forall>ds. getCaseDetails env (run env ds s') i = Inr (a, v, True, t)) \<and>
           (\<forall>service' ui' k.
              getCaseDetails env (snd (decryptData env service' ui' k s')) i = Inr (a, v, True, t))"
proof -
  from open_case have ex: "0 < length (address_bytes env (patientAddress (cases s i)))"
    and nd: "\<not> isDiagnosed (cases s i)"
    and fields: "patientAddress (cases s i) = a" "timestamp (cases s i) = t"
    by (auto simp: getCaseDetails_def Let_def split: if_splits)
  from handle ex have h: "encryptedSymptoms (cases s i) = h"
    by (simp add: getEncryptedSymptoms_def)
  define s' where "s' = s\<lparr>cases := (cases s)(i := (cases s i)\<lparr>diagnosisResult := v,
      isDiagnosed := True\<rparr>), events := events s @ [DiagnosisComplete i v]\<rparr>"
  have commit: "diagnoseCase env i (abiEncodedClearValues d) (decryptionProof d) s = Inr s'"
    using ex nd h proof_ok decoded by (simp add: diagnoseCase_def s'_def)
  have ret: "decryptData env service ui i s = ((Some (clearValues d h), Some StatusSuccess), s')"
    using ui open_case handle answer commit
    by (simp add: decryptData_def verifyDecryption_def getBusinessData_def
      getEncryptedValue_def contract_verifyDecryption_def)
  have det: "getCaseDetails env s' i = Inr (a, v, True, t)"
    using ex fields by (simp add: getCaseDetails_def s'_def)
  have later: "getCaseDetails env (run env ds s') i = Inr (a, v, True, t)" for ds
    using det by (rule getCaseDetails_frozen)
  have again: "getCaseDetails env (snd (decryptData env service' ui' k s')) i = Inr (a, v, True, t)"
    for service' ui' k
  proof -
    have "isDiagnosed (cases s' i)"
      and "0 < length (address_bytes env (patientAddress (cases s' i)))"
      using ex by (simp_all add: s'_def)
    then have "cases (snd (decryptData env service' ui' k s')) i = cases s' i"
      by (rule resolved_after_decryptData)
    with det show ?thesis by (simp add: getCaseDetails_def Let_def split: if_splits)
  qed
  from ret commit det later again show ?thesis by blast
qed

theorem decryption_commits_and_resolves_witness:
  "decryptData test_env test_service page ''a'' init =
     ((Some 42, Some StatusSuccess), run test_env diagnose_a init) \<and>
   getCaseDetails test_env (run test_env diagnose_a init) ''a'' = Inr (0, 42, True, 0)"
proof -
  have ui: "isConnected page \<and> address page \<noteq> None \<and> contractRead page \<and> contractWrite page"
    by (simp add: page_def)
  define d where "d = \<lparr>clearValues = (\<lambda>h :: bytes32. 42 :: int),
      abiEncodedClearValues = abi_encode_uint32 42, decryptionProof = 0 # abi_encode_uint32 42\<rparr>"
  have answer: "test_service [0] (contractAddress page) = Some d"
    by (simp add: test_service_def d_def)
  have proof_ok: "checkSignatures test_env [toBytes32 test_env 0] (abiEncodedClearValues d)
      (decryptionProof d)"
    by (simp add: test_env_def d_def)
  have decoded: "abi_decode_uint32 (abiEncodedClearValues d) = Some 42"
    by (simp add: d_def abi_roundtrip)
  have commit: "diagnoseCase test_env ''a'' (abiEncodedClearValues d) (decryptionProof d) init =
      Inr (run test_env diagnose_a init)"
    using diagnoseCase_a_run by (simp add: d_def)
  show ?thesis
    using decryption_commits_and_resolves [where service = test_service and env = test_env,
        OF ui details_init_a handle_init_a answer proof_ok decoded] commit
    by (auto simp: d_def)
qed

text \<open>
  C9. A decryption request for a record that is diagnosed already should return the
  stored value and count as a success. It does not when the record is diagnosed by
  another transaction after the client has read it: on the empty contract, with the
  \<open>diagnoseCase\<close> of \<open>diagnose_a\<close> mined between the client's read and its
  commit, the commit reverts with \<open>Case already diagnosed\<close>, and the client returns
  \<open>null\<close> with an error status, while the record holds 42.
\<close>

theorem decrypt_resolved_counterexample:
  "getCaseDetails test_env init ''a'' = Inr (0, 0, False, 0) \<and>
   getCaseDetails test_env (run test_env diagnose_a init) ''a'' = Inr (0, 42, True, 0) \<and>
   decryptData_interleaved test_env test_service page diagnose_a ''a'' init =
     ((None, Some StatusError), run test_env diagnose_a init)"
proof -
  have handle: "getEncryptedSymptoms test_env (run test_env diagnose_a init) ''a'' = Inr 0"
    by (simp add: getEncryptedSymptoms_bytes20 [OF test_env_bytes20] run_diagnose_a)
  have commit: "diagnoseCase test_env ''a'' r p (run test_env diagnose_a init) = Inl AlreadyResolved"
    for r p
    using details_diagnosed_a by (rule commit_on_resolved)
  have "caught AlreadyResolved = (None, Some StatusError)"
    by (simp add: caught_def)
  then have "decryptData_interleaved test_env test_service page diagnose_a ''a'' init =
      ((None, Some StatusError), run test_env diagnose_a init)"
    using details_init_a handle commit
    by (simp add: decryptData_interleaved_def verifyDecryption_def getBusinessData_def
      getEncryptedValue_def contract_verifyDecryption_def page_def test_service_def)
  with details_init_a details_diagnosed_a show ?thesis by simp
qed

text \<open>
  C9, as amended. With a connected wallet, \<open>decryptData\<close> on a record that is
  diagnosed when the client reads it returns the stored result with a success status and
  leaves the contract as it was, whatever is mined meanwhile; a \<open>diagnoseCase\<close> sent
  to such a record reverts with \<open>Case already diagnosed\<close> and changes nothing. When
  the client read the record as not diagnosed and it is diagnosed by the time of the
  commit, the request writes nothing to the contract and returns \<open>null\<close>, not the
  stored result.
\<close>

theorem decrypt_resolved_returns_stored:
  assumes ui: "isConnected ui \<and> address ui \<noteq> None \<and> contractRead ui"
  shows "(getCaseDetails env s i = Inr (a, v, True, t) \<longrightarrow>
            decryptData env service ui i s = ((Some (uint v), Some StatusSuccess), s) \<and>
            decryptData_interleaved env service ui others i s =
              ((Some (uint v), Some StatusSuccess), s) \<and>
            exec env m (DiagnoseCase i r p) s = (Inl AlreadyResolved, s)) \<and>
         (getCaseDetails env s i = Inr (a, r0, False, t) \<and>
          getCaseDetails env (run env others s) i = Inr (a', v, True, t') \<longrightarrow>
            fst (fst (decryptData_interleaved env service ui others i s)) = None \<and>
            snd (decryptData_interleaved env service ui others i s) = run env others s)"
proof -
  have early: "decryptData env service ui i s = ((Some (uint v), Some StatusSuccess), s)"
    "decryptData_interleaved env service ui others i s = ((Some (uint v), Some StatusSuccess), s)"
    "exec env m (DiagnoseCase i r p) s = (Inl AlreadyResolved, s)"
    if resolved: "getCaseDetails env s i = Inr (a, v, True, t)"
  proof -
    show "decryptData env service ui i s = ((Some (uint v), Some StatusSuccess), s)"
      using ui resolved by (simp add: decryptData_def getBusinessData_def)
    show "decryptData_interleaved env service ui others i s =
        ((Some (uint v), Some StatusSuccess), s)"
      using ui resolved by (simp add: decryptData_interleaved_def getBusinessData_def)
    show "exec env m (DiagnoseCase i r p) s = (Inl AlreadyResolved, s)"
      using commit_on_resolved [OF resolved] by simp
  qed
  have late: "fst (fst (decryptData_interleaved env service ui others i s)) = None"
    "snd (decryptData_interleaved env service ui others i s) = run env others s"
    if "getCaseDetails env s i = Inr (a, r0, False, t)"
      "getCaseDetails env (run env others s) i = Inr (a', v, True, t')"
    using interleaved_resolved_meanwhile [OF ui that] by simp_all
  from early late show ?thesis by blast
qed

theorem decrypt_resolved_returns_stored_witness:
  "decryptData test_env test_service page ''a'' (run test_env diagnose_a init) =
     ((Some 42, Some StatusSuccess), run test_env diagnose_a init) \<and>
   exec test_env bob (DiagnoseCase ''a'' (abi_encode_uint32 43) (0 # abi_encode_uint32 43))
     (run test_env diagnose_a init) = (Inl AlreadyResolved, run test_env diagnose_a init) \<and>
   fst (fst (decryptData_interleaved test_env test_service page diagnose_a ''a'' init)) = None \<and>
   snd (decryptData_interleaved test_env test_service page diagnose_a ''a'' init) =
     run test_env diagnose_a init"
proof -
  have ui: "isConnected page \<and> address page \<noteq> None \<and> contractRead page"
    by (simp add: page_def)
  note early = decrypt_resolved_returns_stored [OF ui, where env = test_env
      and s = "run test_env diagnose_a init" and i = "''a''" and a = 0 and v = 42 and t = 0
      and service = test_service and m = bob and r = "abi_encode_uint32 43"
      and p = "0 # abi_encode_uint32 43"]
  note late = decrypt_resolved_returns_stored [OF ui, where env = test_env
      and s = init and i = "''a''" and a = 0 and ?r0.0 = 0 and t = 0 and others = diagnose_a
      and a' = 0 and v = 42 and t' = 0 and service = test_service]
  show ?thesis
    using early late details_init_a details_diagnosed_a by simp
qed

text \<open>
  C10. \<open>verifyContractActive\<close> is true: called by anyone, in any state, it returns
  \<open>true\<close> and writes nothing.
\<close>

theorem verifyContractActive_always_true:
  "verifyContractActive \<and> exec env m VerifyContractActive s = (Inr (Flag True), s)"
  by (simp add: verifyContractActive_def)

end
